theory Spec2Isabelle
  imports Main
begin

section \<open>Error values\<close>

text \<open>
  A call site.  The source's \<open>Frame\<close> is an opaque program counter; the model tells a
  call site of the calling program (\<open>Site\<close>) from a call made inside one of this
  package's functions (\<open>Pkg\<close>, named by the enclosing function), which is what the
  skip counts of \<open>callers\<close> are about.  A stack is a list of frames, innermost first.
\<close>

datatype Frame = Site nat | Pkg string

type_synonym stack = "Frame list"

type_synonym StackTrace = "Frame list"

text \<open>
  The dynamic types an \<open>error\<close> interface value can hold.  A nil error is \<open>None\<close> of
  \<open>error option\<close>.
  \<^item> \<open>errorString s\<close>: the leaf made by the standard \<open>errors.New(s)\<close>.
  \<^item> \<open>wrapError msg err\<close>: the value of \<open>fmt.Errorf\<close> with a \<open>%w\<close> operand: its
    \<open>Error()\<close> is \<open>msg\<close>, its \<open>Unwrap()\<close> is \<open>err\<close>.
  \<^item> \<open>withStack err st\<close>: the struct \<open>withStack{error, *stack}\<close>.
  \<^item> \<open>formatted err\<close>: the struct \<open>formatted{error}\<close>.
  \<^item> \<open>foreign msg cause trace fmt\<close>: an error type of the calling program, given by
    what its methods return: \<open>Error()\<close>, \<open>Unwrap()\<close> (\<open>None\<close>: no such method, or it
    returns nil), \<open>StackTrace()\<close> (\<open>None\<close>: no such method) and \<open>Format\<close> as a
    function of the verb and of the \<open>+\<close> flag (\<open>None\<close>: no such method).
  Values are finite trees, so every unwrap chain is finite and acyclic.
\<close>

datatype error =
    errorString string
  | wrapError string error
  | withStack error stack
  | formatted error
  | foreign string "error option" "StackTrace option" "(char \<Rightarrow> bool \<Rightarrow> string) option"

text \<open>
  \<open>Error()\<close>.  \<open>withStack\<close> and \<open>formatted\<close> embed the interface \<open>error\<close>, so their
  \<open>Error\<close> is the embedded value's.
\<close>

fun Error :: "error \<Rightarrow> string" where
  "Error (errorString s) = s"
| "Error (wrapError msg err) = msg"
| "Error (withStack err st) = Error err"
| "Error (formatted err) = Error err"
| "Error (foreign msg cause trace fmt) = msg"

text \<open>
  \<open>StackTrace()\<close>, where the dynamic type has the method.  \<open>withStack\<close> has it through
  its embedded \<open>*stack\<close>; \<open>formatted\<close> embeds only the interface \<open>error\<close> and has none.
\<close>

fun StackTrace :: "error \<Rightarrow> StackTrace option" where
  "StackTrace (errorString s) = None"
| "StackTrace (wrapError msg err) = None"
| "StackTrace (withStack err st) = Some st"
| "StackTrace (formatted err) = None"
| "StackTrace (foreign msg cause trace fmt) = trace"

text \<open>
  The anonymous interface \<open>interface { error; StackTrace() StackTrace }\<close> of
  \<open>ensureStack\<close> and \<open>Cause\<close>, as a test on the dynamic type.
\<close>

definition stackTracer :: "error \<Rightarrow> bool" where
  "stackTracer err = (StackTrace err \<noteq> None)"

text \<open>The methods \<open>Cause\<close> of \<open>withStack\<close> and of \<open>formatted\<close> (source lines 155, 184).\<close>

fun causer :: "error \<Rightarrow> error option" where
  "causer (withStack err st) = Some err"
| "causer (formatted err) = Some err"
| "causer err = None"

text \<open>
  Modelled from the spec: the package function \<open>Unwrap\<close> (its file is not under src/):
  one unwrap step to the node's cause, nil at a leaf and at nil.  The methods it
  calls are the source's: \<open>withStack.Unwrap\<close> and \<open>formatted.Unwrap\<close> return the
  embedded error.
\<close>

fun Unwrap :: "error option \<Rightarrow> error option" where
  "Unwrap None = None"
| "Unwrap (Some (errorString s)) = None"
| "Unwrap (Some (wrapError msg err)) = Some err"
| "Unwrap (Some (withStack err st)) = Some err"
| "Unwrap (Some (formatted err)) = Some err"
| "Unwrap (Some (foreign msg cause trace fmt)) = cause"

lemma Unwrap_size: "Unwrap (Some err) = Some e \<Longrightarrow> size e < size err"
  by (cases err) auto

text \<open>
  Modelled from the spec: the package function \<open>As\<close> (its file is not under src/),
  the capability query of the spec: walk \<open>err\<close>'s chain by unwrap steps and stop at the
  first node that has the wanted capability.  The target interface is the predicate
  \<open>target\<close>; the result is the value stored in the target (\<open>None\<close>: \<open>As\<close> returns false).
  An error type with an \<open>As\<close> method of its own, or with several unwrap targets, is
  not among the values of \<open>error\<close>.
\<close>

function As :: "error option \<Rightarrow> (error \<Rightarrow> bool) \<Rightarrow> error option" where
  "As None target = None"
| "As (Some err) target = (if target err then Some err else As (Unwrap (Some err)) target)"
  by pat_completeness auto
termination
proof (relation "measure (\<lambda>(err, target). case err of None \<Rightarrow> 0 | Some e \<Rightarrow> Suc (size e))")
  show "wf (measure (\<lambda>(err, target). case err of None \<Rightarrow> 0 | Some e \<Rightarrow> Suc (size e)))"
    by simp
next
  fix err :: error and target :: "error \<Rightarrow> bool"
  show "((Unwrap (Some err), target), (Some err, target))
      \<in> measure (\<lambda>(err, target). case err of None \<Rightarrow> 0 | Some e \<Rightarrow> Suc (size e))"
    by (cases "Unwrap (Some err)") (auto dest: Unwrap_size)
qed

section \<open>Capturing the stack\<close>

text \<open>
  Modelled from the spec: \<open>callers\<close> (its file is not under src/).  \<open>cs\<close> is the active
  call stack when \<open>callers\<close> is entered, innermost first: its head is the call inside
  the package function that asks for the capture.  That frame is left out, and
  \<open>skip\<close> further wrapper frames.
\<close>

definition callers :: "nat \<Rightarrow> stack \<Rightarrow> stack" where
  "callers skip cs = drop (Suc skip) cs"

section \<open>Creating and annotating errors\<close>

text \<open>
  Every operation takes the active call stack \<open>cs\<close> at its call, innermost first: the
  head of \<open>cs\<close> is the call site of the operation in the calling program.  A call
  made inside the package pushes the frame of the function that makes it.
\<close>

definition New :: "string \<Rightarrow> stack \<Rightarrow> error option" where
  "New message cs =
     Some (formatted (withStack (errorString message) (callers 0 (Pkg ''New'' # cs))))"


definition ensureStack :: "error option \<Rightarrow> stack \<Rightarrow> error option" where
  "ensureStack err cs =
     (case err of
        None \<Rightarrow> None
      | Some e \<Rightarrow>
          (case As err stackTracer of
             Some st \<Rightarrow> Some (formatted e)
           | None \<Rightarrow> Some (formatted (withStack e (callers 1 (Pkg ''ensureStack'' # cs))))))"

definition WithStack :: "error option \<Rightarrow> stack \<Rightarrow> error option" where
  "WithStack err cs = ensureStack err (Pkg ''WithStack'' # cs)"

definition EnsureStack :: "error option \<Rightarrow> stack \<Rightarrow> error option" where
  "EnsureStack err cs = ensureStack err (Pkg ''EnsureStack'' # cs)"

section \<open>Printing\<close>

text \<open>
  What the package leaves to its environment when it prints: the \<open>Format\<close> method of
  \<open>*stack\<close>, which is not under src/ (a function of the stack, the verb and the \<open>+\<close>
  flag; its receiver is the stack alone), and the Unicode tables of the standard
  \<open>strconv.IsPrint\<close> for the runes above \<open>0xFF\<close>.
\<close>

record printer =
  stackFormat :: "stack \<Rightarrow> char \<Rightarrow> bool \<Rightarrow> string"
  isPrintTable :: "nat \<Rightarrow> bool"

subsection \<open>The quoted verb of the standard printer\<close>

text \<open>
  \<open>%q\<close> of a string is \<open>strconv.Quote\<close>, and \<open>strconv.QuoteToASCII\<close> under the \<open>+\<close>
  flag.  A string is a list of bytes and a rune is a natural number.  The bit
  operations of the standard library are written as arithmetic: \<open>b & 0x3F\<close> is
  \<open>b mod 64\<close>, \<open>r >> 6\<close> is \<open>r div 64\<close>, and \<open>|\<close> on disjoint bits is \<open>+\<close>.

  \<open>first\<close> is the table of \<open>utf8\<close> by lead byte: the length of the sequence and the
  range accepted for its second byte; \<open>None\<close> for an ASCII byte and for a byte that
  cannot start a sequence.  \<open>utf8.DecodeRuneInString\<close> gives the first rune of a
  string and its width in bytes, \<open>RuneError\<close> with width 1 where the bytes are no
  valid sequence.
\<close>

definition RuneError :: nat where
  "RuneError = 0xFFFD"

definition first :: "nat \<Rightarrow> (nat \<times> nat \<times> nat) option" where
  "first b =
     (if 0xC2 \<le> b \<and> b \<le> 0xDF then Some (2, 0x80, 0xBF)
      else if b = 0xE0 then Some (3, 0xA0, 0xBF)
      else if b = 0xED then Some (3, 0x80, 0x9F)
      else if 0xE1 \<le> b \<and> b \<le> 0xEF then Some (3, 0x80, 0xBF)
      else if b = 0xF0 then Some (4, 0x90, 0xBF)
      else if 0xF1 \<le> b \<and> b \<le> 0xF3 then Some (4, 0x80, 0xBF)
      else if b = 0xF4 then Some (4, 0x80, 0x8F)
      else None)"

definition DecodeRuneInString :: "string \<Rightarrow> nat \<times> nat" where
  "DecodeRuneInString s =
     (case map of_char s of
        [] \<Rightarrow> (RuneError, 0)
      | s0 # rest \<Rightarrow>
          (case first s0 of
             None \<Rightarrow> (if s0 < 0x80 then s0 else RuneError, 1)
           | Some (sz, lo, hi) \<Rightarrow>
               (if length s < sz then (RuneError, 1)
                else if rest ! 0 < lo \<or> hi < rest ! 0 then (RuneError, 1)
                else if sz \<le> 2 then (s0 mod 32 * 64 + rest ! 0 mod 64, 2)
                else if rest ! 1 < 0x80 \<or> 0xBF < rest ! 1 then (RuneError, 1)
                else if sz \<le> 3 then
                  (s0 mod 16 * 4096 + rest ! 0 mod 64 * 64 + rest ! 1 mod 64, 3)
                else if rest ! 2 < 0x80 \<or> 0xBF < rest ! 2 then (RuneError, 1)
                else
                  (s0 mod 8 * 262144 + rest ! 0 mod 64 * 4096 + rest ! 1 mod 64 * 64 +
                     rest ! 2 mod 64, 4))))"

text \<open>\<open>utf8.AppendRune\<close>: the UTF-8 encoding of a rune.\<close>

definition AppendRune :: "nat \<Rightarrow> string" where
  "AppendRune r =
     (if r \<le> 0x7F then [char_of r]
      else if r \<le> 0x7FF then [char_of (0xC0 + r div 64), char_of (0x80 + r mod 64)]
      else if 0x10FFFF < r \<or> (0xD800 \<le> r \<and> r \<le> 0xDFFF) then
        [CHR 0xEF, CHR 0xBF, CHR 0xBD]
      else if r \<le> 0xFFFF then
        [char_of (0xE0 + r div 4096), char_of (0x80 + r div 64 mod 64), char_of (0x80 + r mod 64)]
      else
        [char_of (0xF0 + r div 262144), char_of (0x80 + r div 4096 mod 64),
         char_of (0x80 + r div 64 mod 64), char_of (0x80 + r mod 64)])"

text \<open>
  \<open>strconv.IsPrint\<close>: decided by comparisons up to \<open>0xFF\<close> and by the Unicode
  tables, the parameter \<open>table\<close>, above.  \<open>utf8.ValidRune\<close> excludes the surrogates
  and what lies beyond \<open>0x10FFFF\<close>.
\<close>

definition IsPrint :: "(nat \<Rightarrow> bool) \<Rightarrow> nat \<Rightarrow> bool" where
  "IsPrint table r =
     (if r \<le> 0xFF then
        (if 0x20 \<le> r \<and> r \<le> 0x7E then True
         else if 0xA1 \<le> r \<and> r \<le> 0xFF then r \<noteq> 0xAD
         else False)
      else table r)"

definition ValidRune :: "nat \<Rightarrow> bool" where
  "ValidRune r = (r < 0xD800 \<or> (0xDFFF < r \<and> r \<le> 0x10FFFF))"

text \<open>
  \<open>hexDigits n r\<close> is the loop \<open>for s := 4*(n-1); s >= 0; s -= 4\<close> that appends
  \<open>lowerhex[r>>s & 0xF]\<close>.
\<close>

definition lowerhex :: "nat \<Rightarrow> char" where
  "lowerhex n = ''0123456789abcdef'' ! n"

definition hexDigits :: "nat \<Rightarrow> nat \<Rightarrow> string" where
  "hexDigits n r = map (\<lambda>k. lowerhex (r div 16 ^ k mod 16)) (rev [0..<n])"

text \<open>
  \<open>strconv.appendEscapedRune\<close> for the double quotation mark, as \<open>Quote\<close> and
  \<open>QuoteToASCII\<close> call it (\<open>graphicOnly\<close> is false in both).
\<close>

definition appendEscapedRune :: "(nat \<Rightarrow> bool) \<Rightarrow> nat \<Rightarrow> bool \<Rightarrow> string" where
  "appendEscapedRune table r ASCIIonly =
     (if r = 0x22 \<or> r = 0x5C then [CHR 0x5C, char_of r]
      else if ASCIIonly \<and> r < 0x80 \<and> IsPrint table r then [char_of r]
      else if \<not> ASCIIonly \<and> IsPrint table r then AppendRune r
      else if r = 0x07 then [CHR 0x5C, CHR ''a'']
      else if r = 0x08 then [CHR 0x5C, CHR ''b'']
      else if r = 0x0C then [CHR 0x5C, CHR ''f'']
      else if r = 0x0A then [CHR 0x5C, CHR ''n'']
      else if r = 0x0D then [CHR 0x5C, CHR ''r'']
      else if r = 0x09 then [CHR 0x5C, CHR ''t'']
      else if r = 0x0B then [CHR 0x5C, CHR ''v'']
      else if r < 0x20 \<or> r = 0x7F then [CHR 0x5C, CHR ''x''] @ hexDigits 2 r
      else if \<not> ValidRune r then [CHR 0x5C, CHR ''u''] @ hexDigits 4 RuneError
      else if r < 0x10000 then [CHR 0x5C, CHR ''u''] @ hexDigits 4 r
      else [CHR 0x5C, CHR ''U''] @ hexDigits 8 r)"

text \<open>
  The head of the loop of \<open>strconv.appendQuotedWith\<close>: the first rune of the rest of
  the string and its width in bytes.
\<close>

definition firstRune :: "string \<Rightarrow> nat \<times> nat" where
  "firstRune s =
     (case s of
        [] \<Rightarrow> (RuneError, 0)
      | c # cs \<Rightarrow> (if (0x80::nat) \<le> of_char c then DecodeRuneInString s else (of_char c, 1)))"

lemma DecodeRuneInString_width: "0 < snd (DecodeRuneInString (c # cs))"
  by (auto simp add: DecodeRuneInString_def split: option.splits)

lemma firstRune_width: "0 < snd (firstRune (c # cs))"
  by (simp add: firstRune_def DecodeRuneInString_width)

text \<open>
  The loop of \<open>strconv.appendQuotedWith\<close>: a byte that starts no valid sequence is
  written \<open>\x\<close> and two digits, every other rune goes through \<open>appendEscapedRune\<close>.
\<close>

function quoteBody :: "(nat \<Rightarrow> bool) \<Rightarrow> string \<Rightarrow> bool \<Rightarrow> string" where
  "quoteBody table [] ASCIIonly = []"
| "quoteBody table (c # cs) ASCIIonly =
     (let r = fst (firstRune (c # cs)); width = snd (firstRune (c # cs)) in
      if width = 1 \<and> r = RuneError then
        [CHR 0x5C, CHR ''x''] @ hexDigits 2 (of_char c) @ quoteBody table cs ASCIIonly
      else
        appendEscapedRune table r ASCIIonly @
        quoteBody table (drop width (c # cs)) ASCIIonly)"
  by pat_completeness auto
termination
proof (relation "measure (\<lambda>(t, s, a). length s)")
  show "wf (measure (\<lambda>(t :: nat \<Rightarrow> bool, s :: string, a :: bool). length s))" by simp
next
  fix table :: "nat \<Rightarrow> bool" and c cs and ASCIIonly :: bool
  show "((table, cs, ASCIIonly), (table, c # cs, ASCIIonly))
      \<in> measure (\<lambda>(t, s, a). length s)" by simp
next
  fix table :: "nat \<Rightarrow> bool" and c cs and ASCIIonly :: bool and r width
  assume "width = snd (firstRune (c # cs))"
  then have "0 < width" by (simp add: firstRune_width)
  then show "((table, drop width (c # cs), ASCIIonly), (table, c # cs, ASCIIonly))
      \<in> measure (\<lambda>(t, s, a). length s)" by simp
qed

definition appendQuotedWith :: "(nat \<Rightarrow> bool) \<Rightarrow> string \<Rightarrow> bool \<Rightarrow> string" where
  "appendQuotedWith table s ASCIIonly =
     CHR 0x22 # quoteBody table s ASCIIonly @ [CHR 0x22]"

definition Quote :: "(nat \<Rightarrow> bool) \<Rightarrow> string \<Rightarrow> string" where
  "Quote table s = appendQuotedWith table s False"

definition QuoteToASCII :: "(nat \<Rightarrow> bool) \<Rightarrow> string \<Rightarrow> string" where
  "QuoteToASCII table s = appendQuotedWith table s True"

text \<open>
  The interface \<open>interface { Format(fmt.State, rune); StackTrace() StackTrace }\<close> of
  \<open>formatted.Format\<close>.  \<open>withStack\<close> has both methods through its embedded \<open>*stack\<close>.
\<close>

fun hasFormat :: "error \<Rightarrow> bool" where
  "hasFormat (errorString s) = False"
| "hasFormat (wrapError msg err) = False"
| "hasFormat (withStack err st) = True"
| "hasFormat (formatted err) = True"
| "hasFormat (foreign msg cause trace fmt) = (fmt \<noteq> None)"

definition formatStackTracer :: "error \<Rightarrow> bool" where
  "formatStackTracer err = (hasFormat err \<and> stackTracer err)"

text \<open>
  \<open>st.Format(s, verb)\<close> on a value found through \<open>formatStackTracer\<close>.  The method of
  \<open>withStack\<close> is the \<open>Format\<close> of \<open>*stack\<close>: the field \<open>stackFormat\<close> of the printer.
\<close>

fun stFormat :: "printer \<Rightarrow> error \<Rightarrow> char \<Rightarrow> bool \<Rightarrow> string" where
  "stFormat printer (withStack err st) verb plusFlag = stackFormat printer st verb plusFlag"
| "stFormat printer (foreign msg cause trace (Some fmt)) verb plusFlag = fmt verb plusFlag"
| "stFormat printer err verb plusFlag = []"

text \<open>
  \<open>formatted.Format\<close>, as the text it writes.  \<open>err\<close> is the embedded \<open>f.error\<close>, \<open>plusFlag\<close>
  is \<open>s.Flag('+')\<close>.  A verb other than \<open>v\<close>, \<open>s\<close>, \<open>q\<close> writes nothing.
\<close>

definition Format :: "printer \<Rightarrow> error \<Rightarrow> char \<Rightarrow> bool \<Rightarrow> string" where
  "Format printer err verb plusFlag =
     (if verb = CHR ''v'' then
        (if plusFlag then
           Error err @
           (case As (Some err) formatStackTracer of
              Some st \<Rightarrow> stFormat printer st verb plusFlag
            | None \<Rightarrow> [])
         else Error err)
      else if verb = CHR ''s'' then Error err
      else if verb = CHR ''q'' then Quote (isPrintTable printer) (Error err)
      else [])"

text \<open>The \<open>Format\<close> method of a dynamic type, where it has one.\<close>

fun formatter :: "printer \<Rightarrow> error \<Rightarrow> (char \<Rightarrow> bool \<Rightarrow> string) option" where
  "formatter printer (errorString s) = None"
| "formatter printer (wrapError msg err) = None"
| "formatter printer (withStack err st) = Some (stackFormat printer st)"
| "formatter printer (formatted err) = Some (Format printer err)"
| "formatter printer (foreign msg cause trace fmt) = fmt"

text \<open>
  How the standard printer renders an error operand under the verbs \<open>v\<close>, \<open>s\<close> and
  \<open>q\<close>: a value with a \<open>Format\<close> method formats itself; any other error is printed
  from its \<open>Error()\<close> text, quoted under \<open>q\<close> (in ASCII under the \<open>+\<close> flag).
\<close>

datatype verb = VerbV | VerbS | VerbQ

fun rune :: "verb \<Rightarrow> char" where
  "rune VerbV = CHR ''v''"
| "rune VerbS = CHR ''s''"
| "rune VerbQ = CHR ''q''"

definition Sprint :: "printer \<Rightarrow> verb \<Rightarrow> bool \<Rightarrow> error \<Rightarrow> string" where
  "Sprint printer vb plusFlag err =
     (case formatter printer err of
        Some fmt \<Rightarrow> fmt (rune vb) plusFlag
      | None \<Rightarrow>
          (case vb of
             VerbQ \<Rightarrow>
               (if plusFlag then QuoteToASCII (isPrintTable printer) (Error err)
                else Quote (isPrintTable printer) (Error err))
           | _ \<Rightarrow> Error err))"

text \<open>
  The standard \<open>fmt.Errorf("%s: %w", message, err)\<close>: the operand of \<open>%w\<close> is printed
  as under \<open>%v\<close> and becomes the value's \<open>Unwrap()\<close>.  A nil operand, which no caller
  below passes, is printed as a bad verb and wraps nothing.
\<close>

definition fmtErrorf_w :: "printer \<Rightarrow> string \<Rightarrow> error option \<Rightarrow> error" where
  "fmtErrorf_w printer message err =
     (case err of
        None \<Rightarrow> errorString (message @ '': %!w(<nil>)'')
      | Some e \<Rightarrow> wrapError (message @ '': '' @ Sprint printer VerbV False e) e)"

section \<open>Wrapping\<close>

definition Wrap :: "printer \<Rightarrow> error option \<Rightarrow> string \<Rightarrow> stack \<Rightarrow> error option" where
  "Wrap printer err message cs =
     (case err of
        None \<Rightarrow> None
      | Some e \<Rightarrow>
          Some (formatted (fmtErrorf_w printer message (ensureStack err (Pkg ''Wrap'' # cs)))))"

text \<open>\<open>sprintf\<close> stands for the standard \<open>fmt.Sprintf\<close>.\<close>

definition Wrapf :: "printer \<Rightarrow> (string \<Rightarrow> 'a list \<Rightarrow> string) \<Rightarrow>
    error option \<Rightarrow> string \<Rightarrow> 'a list \<Rightarrow> stack \<Rightarrow> error option" where
  "Wrapf printer sprintf err format args cs =
     (case err of
        None \<Rightarrow> None
      | Some e \<Rightarrow>
          Some (formatted (fmtErrorf_w printer (sprintf format args)
                  (ensureStack err (Pkg ''Wrapf'' # cs)))))"

definition WithMessage :: "printer \<Rightarrow> error option \<Rightarrow> string \<Rightarrow> error option" where
  "WithMessage printer err message =
     (case err of
        None \<Rightarrow> None
      | Some e \<Rightarrow> Some (fmtErrorf_w printer message err))"

definition WithMessagef :: "printer \<Rightarrow> (string \<Rightarrow> 'a list \<Rightarrow> string) \<Rightarrow>
    error option \<Rightarrow> string \<Rightarrow> 'a list \<Rightarrow> error option" where
  "WithMessagef printer sprintf err format args =
     (case err of
        None \<Rightarrow> None
      | Some e \<Rightarrow> Some (fmtErrorf_w printer (sprintf format args) err))"

section \<open>Walking the chain\<close>

text \<open>
  \<open>Cause\<close>: the source's loop.  Each round asks \<open>As\<close> for a node with a \<open>StackTrace\<close>
  and returns it; otherwise it takes one \<open>Unwrap\<close> step, and returns the current
  error when that step gives nil.
\<close>

function Cause :: "error option \<Rightarrow> error option" where
  "Cause err =
     (case As err stackTracer of
        Some st \<Rightarrow> Some st
      | None \<Rightarrow> (case Unwrap err of None \<Rightarrow> err | Some e \<Rightarrow> Cause (Some e)))"
  by pat_completeness auto
termination
proof (relation "measure (\<lambda>err. case err of None \<Rightarrow> 0 | Some e \<Rightarrow> Suc (size e))")
  show "wf (measure (\<lambda>err. case err of None \<Rightarrow> 0 | Some e \<Rightarrow> Suc (size e)))"
    by simp
next
  fix err :: "error option" and e :: error
  assume "Unwrap err = Some e"
  then show "(Some e, err) \<in> measure (\<lambda>err. case err of None \<Rightarrow> 0 | Some e \<Rightarrow> Suc (size e))"
    by (cases err) (auto dest: Unwrap_size)
qed

section \<open>Notions used to state the properties\<close>

text \<open>
  The unwrap chain of an error: the error itself, then what successive \<open>Unwrap\<close>
  steps reach, outermost node first, ending in the leaf.
\<close>

function chain :: "error \<Rightarrow> error list" where
  "chain err = err # (case Unwrap (Some err) of None \<Rightarrow> [] | Some e \<Rightarrow> chain e)"
  by pat_completeness auto
termination
  by (relation "measure size") (auto dest: Unwrap_size)

text \<open>Every stack trace a chain exposes, outermost first; none for nil.\<close>

definition stackTraces :: "error option \<Rightarrow> StackTrace list" where
  "stackTraces err =
     (case err of None \<Rightarrow> [] | Some e \<Rightarrow> List.map_filter StackTrace (chain e))"

text \<open>
  The stack trace an error carries: that of the node \<open>As\<close> finds for the interface
  \<open>stackTracer\<close>.
\<close>

definition carried :: "error option \<Rightarrow> StackTrace option" where
  "carried err = (case As err stackTracer of None \<Rightarrow> None | Some st \<Rightarrow> StackTrace st)"

text \<open>
  One annotation operation with its arguments but the error, and a sequence of them
  applied on top of an error, each at the call stack of its own call.
\<close>

datatype 'a annotation =
    AnnWrap string
  | AnnWrapf string "'a list"
  | AnnWithMessage string
  | AnnWithMessagef string "'a list"
  | AnnEnsureStack

fun annotate :: "printer \<Rightarrow> (string \<Rightarrow> 'a list \<Rightarrow> string) \<Rightarrow>
    error option \<Rightarrow> 'a annotation \<times> stack \<Rightarrow> error option" where
  "annotate printer sprintf err (AnnWrap message, cs) = Wrap printer err message cs"
| "annotate printer sprintf err (AnnWrapf format args, cs) =
     Wrapf printer sprintf err format args cs"
| "annotate printer sprintf err (AnnWithMessage message, cs) =
     WithMessage printer err message"
| "annotate printer sprintf err (AnnWithMessagef format args, cs) =
     WithMessagef printer sprintf err format args"
| "annotate printer sprintf err (AnnEnsureStack, cs) = EnsureStack err cs"

definition annotateAll :: "printer \<Rightarrow> (string \<Rightarrow> 'a list \<Rightarrow> string) \<Rightarrow>
    error option \<Rightarrow> ('a annotation \<times> stack) list \<Rightarrow> error option" where
  "annotateAll printer sprintf err anns = foldl (annotate printer sprintf) err anns"

text \<open>The operations that go through \<open>ensureStack\<close>.\<close>

fun forcesStack :: "'a annotation \<times> stack \<Rightarrow> bool" where
  "forcesStack (AnnWrap message, cs) = True"
| "forcesStack (AnnWrapf format args, cs) = True"
| "forcesStack (AnnWithMessage message, cs) = False"
| "forcesStack (AnnWithMessagef format args, cs) = False"
| "forcesStack (AnnEnsureStack, cs) = True"




section \<open>Facts about the chain walk\<close>

declare Cause.simps [simp del]

declare chain.simps [simp del]

lemma As_target: "As err target = Some st \<Longrightarrow> target st"
  by (induction err target rule: As.induct) (auto split: if_splits)

lemma chain_not_Nil: "chain err \<noteq> []"
  by (simp add: chain.simps [of err])

lemma As_chain: "As (Some err) target = find target (chain err)"
proof (induction err rule: chain.induct)
  case (1 err)
  show ?case
  proof (cases "Unwrap (Some err)")
    case None
    then show ?thesis by (simp add: chain.simps [of err])
  next
    case (Some e)
    with "1.IH" [OF Some] show ?thesis by (simp add: chain.simps [of err])
  qed
qed

lemma Cause_stackTracer: "stackTracer e \<Longrightarrow> Cause (Some e) = Some e"
  by (simp add: Cause.simps [of "Some e"])

lemma Cause_leaf: "Unwrap (Some e) = None \<Longrightarrow> Cause (Some e) = Some e"
  by (simp add: Cause.simps [of "Some e"])

lemma Cause_through:
  assumes "\<not> stackTracer err" and "Unwrap (Some err) = Some e"
  shows "Cause (Some err) = Cause (Some e)"
proof (cases "As (Some e) stackTracer")
  case None
  with assms show ?thesis by (simp add: Cause.simps [of "Some err"])
next
  case (Some st)
  with assms show ?thesis by (simp add: Cause.simps [of "Some err"] Cause.simps [of "Some e"])
qed

lemma Cause_wrapError: "Cause (Some (wrapError msg e)) = Cause (Some e)"
  by (rule Cause_through) (simp_all add: stackTracer_def)

lemma Cause_formatted: "Cause (Some (formatted e)) = Cause (Some e)"
  by (rule Cause_through) (simp_all add: stackTracer_def)

lemma chain_simps:
  "chain (errorString s) = [errorString s]"
  "chain (wrapError msg err) = wrapError msg err # chain err"
  "chain (withStack err st) = withStack err st # chain err"
  "chain (formatted err) = formatted err # chain err"
  "chain (foreign m None t f) = [foreign m None t f]"
  "chain (foreign m (Some err) t f) = foreign m (Some err) t f # chain err"
  by (simp_all add: chain.simps [of "errorString s"] chain.simps [of "wrapError msg err"]
        chain.simps [of "withStack err st"] chain.simps [of "formatted err"]
        chain.simps [of "foreign m None t f"] chain.simps [of "foreign m (Some err) t f"])

lemma Cause_chain:
  "Cause (Some err) =
     (case find stackTracer (chain err) of Some st \<Rightarrow> Some st | None \<Rightarrow> Some (last (chain err)))"
proof (induction err rule: chain.induct)
  case (1 err)
  show ?case
  proof (cases "find stackTracer (chain err)")
    case (Some st)
    then show ?thesis by (simp add: Cause.simps [of "Some err"] As_chain del: As.simps)
  next
    case None
    then have nst: "\<not> stackTracer err" by (simp add: chain.simps [of err] split: if_splits)
    show ?thesis
    proof (cases "Unwrap (Some err)")
      case noUnwrap: None
      then have "chain err = [err]" by (simp add: chain.simps [of err])
      with None noUnwrap show ?thesis by (simp add: Cause_leaf)
    next
      case (Some e)
      then have c: "chain err = err # chain e" by (simp add: chain.simps [of err])
      with None nst have "find stackTracer (chain e) = None" by simp
      with "1.IH" [OF Some] have "Cause (Some e) = Some (last (chain e))" by simp
      with None Some c nst show ?thesis
        by (simp add: Cause_through [OF nst Some] chain_not_Nil)
    qed
  qed
qed

lemma last_chain_leaf: "Unwrap (Some (last (chain err))) = None"
proof (induction err rule: chain.induct)
  case (1 err)
  show ?case
  proof (cases "Unwrap (Some err)")
    case None
    then show ?thesis by (simp add: chain.simps [of err])
  next
    case (Some e)
    with "1.IH" [OF Some] show ?thesis by (simp add: chain.simps [of err] chain_not_Nil)
  qed
qed

lemma WithMessage_Some:
  "WithMessage sf (Some e) m = Some (wrapError (m @ '': '' @ Sprint sf VerbV False e) e)"
  by (simp add: WithMessage_def fmtErrorf_w_def)

lemma Cause_WithMessages:
  "\<exists>x. foldl (WithMessage sf) (Some e) ms = Some x \<and> Cause (Some x) = Cause (Some e)"
proof (induction ms rule: rev_induct)
  case Nil
  then show ?case by simp
next
  case (snoc m ms)
  then obtain x where x: "foldl (WithMessage sf) (Some e) ms = Some x"
    and c: "Cause (Some x) = Cause (Some e)" by blast
  then show ?case by (simp add: WithMessage_Some Cause_wrapError)
qed

lemma As_list_ex: "(As (Some err) target \<noteq> None) = list_ex target (chain err)"
  by (auto simp add: As_chain find_None_iff list_ex_iff simp del: As.simps)

lemma EnsureStack_found:
  "list_ex stackTracer (chain e) \<Longrightarrow> EnsureStack (Some e) cs = Some (formatted e)"
  using As_list_ex [of e stackTracer]
  by (auto simp add: EnsureStack_def ensureStack_def simp del: As.simps split: option.splits)

lemma EnsureStack_capture:
  "\<not> list_ex stackTracer (chain e) \<Longrightarrow>
     EnsureStack (Some e) cs = Some (formatted (withStack e cs))"
  using As_list_ex [of e stackTracer]
  by (auto simp add: EnsureStack_def ensureStack_def callers_def simp del: As.simps
        split: option.splits)

lemma carried_formatted: "carried (Some (formatted e)) = carried (Some e)"
  by (simp add: carried_def stackTracer_def)

lemma carried_wrapError: "carried (Some (wrapError msg e)) = carried (Some e)"
  by (simp add: carried_def stackTracer_def)

lemma carried_withStack: "carried (Some (withStack e st)) = Some st"
  by (simp add: carried_def stackTracer_def)

lemma stackTraces_formatted: "stackTraces (Some (formatted e)) = stackTraces (Some e)"
  by (simp add: stackTraces_def chain_simps)

lemma stackTraces_wrapError: "stackTraces (Some (wrapError msg e)) = stackTraces (Some e)"
  by (simp add: stackTraces_def chain_simps)

lemma stackTraces_withStack:
  "stackTraces (Some (withStack e st)) = st # stackTraces (Some e)"
  by (simp add: stackTraces_def chain_simps)

lemma stackTraces_none:
  "\<not> list_ex stackTracer (chain e) \<Longrightarrow> stackTraces (Some e) = []"
  by (auto simp add: stackTraces_def List.map_filter_def list_ex_iff stackTracer_def filter_empty_conv)

lemma Sprint_formatted_v: "Sprint sf VerbV False (formatted e) = Error e"
  by (simp add: Sprint_def Format_def)

lemma Wrap_found:
  "list_ex stackTracer (chain e) \<Longrightarrow>
     Wrap sf (Some e) m cs = Some (formatted (wrapError (m @ '': '' @ Error e) (formatted e)))"
  using EnsureStack_found [of e "cs"] As_list_ex [of e stackTracer]
  by (auto simp add: Wrap_def ensureStack_def fmtErrorf_w_def Sprint_formatted_v
        simp del: As.simps split: option.splits)

lemma Wrap_capture:
  "\<not> list_ex stackTracer (chain e) \<Longrightarrow>
     Wrap sf (Some e) m cs =
       Some (formatted (wrapError (m @ '': '' @ Error e) (formatted (withStack e cs))))"
  using As_list_ex [of e stackTracer]
  by (auto simp add: Wrap_def ensureStack_def fmtErrorf_w_def Sprint_formatted_v
        callers_def simp del: As.simps split: option.splits)

lemma Sprint_formatted:
  "Sprint sf VerbS flag (formatted e) = Error e"
  "Sprint sf VerbQ flag (formatted e) = Quote (isPrintTable sf) (Error e)"
  by (simp_all add: Sprint_def Format_def)


lemma Wrap_Some:
  "\<exists>w. Wrap sf (Some e) m cs = Some (formatted (wrapError (m @ '': '' @ Error e) w)) \<and>
       Unwrap (Some w) \<noteq> None"
  by (cases "list_ex stackTracer (chain e)") (simp_all add: Wrap_found Wrap_capture)

lemma Wrapf_found:
  "list_ex stackTracer (chain e) \<Longrightarrow>
     Wrapf sf sp (Some e) format args cs =
       Some (formatted (wrapError (sp format args @ '': '' @ Error e) (formatted e)))"
  using As_list_ex [of e stackTracer]
  by (auto simp add: Wrapf_def ensureStack_def fmtErrorf_w_def Sprint_formatted_v
        simp del: As.simps split: option.splits)

lemma Wrapf_capture:
  "\<not> list_ex stackTracer (chain e) \<Longrightarrow>
     Wrapf sf sp (Some e) format args cs =
       Some (formatted (wrapError (sp format args @ '': '' @ Error e) (formatted (withStack e cs))))"
  using As_list_ex [of e stackTracer]
  by (auto simp add: Wrapf_def ensureStack_def fmtErrorf_w_def Sprint_formatted_v
        callers_def simp del: As.simps split: option.splits)

lemma WithMessagef_Some:
  "WithMessagef sf sp (Some e) format args =
     Some (wrapError (sp format args @ '': '' @ Sprint sf VerbV False e) e)"
  by (simp add: WithMessagef_def fmtErrorf_w_def)

lemma list_ex_stackTracer_simps:
  "list_ex stackTracer (chain (formatted e)) = list_ex stackTracer (chain e)"
  "list_ex stackTracer (chain (wrapError msg e)) = list_ex stackTracer (chain e)"
  "list_ex stackTracer (chain (withStack e st))"
  by (simp_all add: chain_simps stackTracer_def)

lemma stackTracer_chain: "stackTracer e \<Longrightarrow> list_ex stackTracer (chain e)"
  by (simp add: chain.simps [of e])

lemma annotate_found:
  assumes "list_ex stackTracer (chain e)"
  shows "\<exists>x. annotate sf sp (Some e) a = Some x \<and> list_ex stackTracer (chain x) \<and>
     Cause (Some x) = Cause (Some e)"
proof (cases a)
  case (Pair ann cs)
  with assms show ?thesis
    by (cases ann)
      (simp_all add: Wrap_found Wrapf_found WithMessage_Some WithMessagef_Some EnsureStack_found
        list_ex_stackTracer_simps Cause_formatted Cause_wrapError)
qed

lemma annotate_message_only:
  assumes "\<not> forcesStack a"
  shows "\<exists>x. annotate sf sp (Some e) a = Some x \<and>
     list_ex stackTracer (chain x) = list_ex stackTracer (chain e) \<and>
     Cause (Some x) = Cause (Some e)"
proof (cases a)
  case (Pair ann cs)
  with assms show ?thesis
    by (cases ann)
      (simp_all add: WithMessage_Some WithMessagef_Some list_ex_stackTracer_simps Cause_wrapError)
qed

lemma annotate_capture:
  assumes "\<not> list_ex stackTracer (chain e)" and "forcesStack (ann, cs)"
  shows "\<exists>x. annotate sf sp (Some e) (ann, cs) = Some x \<and> list_ex stackTracer (chain x) \<and>
     Cause (Some x) = Some (withStack e cs)"
  using assms
  by (cases ann)
    (simp_all add: Wrap_capture Wrapf_capture EnsureStack_capture list_ex_stackTracer_simps
      Cause_formatted Cause_wrapError Cause_stackTracer stackTracer_def)

lemma annotateAll_Nil: "annotateAll sf sp err [] = err"
  by (simp add: annotateAll_def)

lemma annotateAll_Cons:
  "annotateAll sf sp err (a # anns) = annotateAll sf sp (annotate sf sp err a) anns"
  by (simp add: annotateAll_def)

lemma annotateAll_append:
  "annotateAll sf sp err (pre @ post) = annotateAll sf sp (annotateAll sf sp err pre) post"
  by (simp add: annotateAll_def)

lemma annotateAll_found:
  "list_ex stackTracer (chain e) \<Longrightarrow>
     \<exists>x. annotateAll sf sp (Some e) anns = Some x \<and> list_ex stackTracer (chain x) \<and>
       Cause (Some x) = Cause (Some e)"
proof (induction anns arbitrary: e)
  case Nil
  then show ?case by (simp add: annotateAll_Nil)
next
  case (Cons a anns)
  from annotate_found [OF Cons.prems, of sf sp a]
  obtain y where y: "annotate sf sp (Some e) a = Some y" "list_ex stackTracer (chain y)"
    "Cause (Some y) = Cause (Some e)" by blast
  from Cons.IH [OF y(2)] y(1) y(3) show ?case by (simp add: annotateAll_Cons)
qed

lemma annotateAll_message_only:
  "\<not> list_ex forcesStack anns \<Longrightarrow>
     \<exists>x. annotateAll sf sp (Some e) anns = Some x \<and>
       list_ex stackTracer (chain x) = list_ex stackTracer (chain e) \<and>
       Cause (Some x) = Cause (Some e)"
proof (induction anns arbitrary: e)
  case Nil
  then show ?case by (simp add: annotateAll_Nil)
next
  case (Cons a anns)
  then have a: "\<not> forcesStack a" and rest: "\<not> list_ex forcesStack anns" by simp_all
  from annotate_message_only [OF a, of sf sp e]
  obtain y where y: "annotate sf sp (Some e) a = Some y"
    "list_ex stackTracer (chain y) = list_ex stackTracer (chain e)"
    "Cause (Some y) = Cause (Some e)" by blast
  from Cons.IH [OF rest, of y] y show ?case by (simp add: annotateAll_Cons)
qed

section \<open>Facts about printing\<close>













declare quoteBody.simps(2) [simp del]

















section \<open>Nil input\<close>

text \<open>
  C4.  On the nil error, \<open>Wrap\<close>, \<open>Wrapf\<close>, \<open>WithMessage\<close>, \<open>WithMessagef\<close> and
  \<open>EnsureStack\<close> (and its alias \<open>WithStack\<close>) return nil, whatever the other
  arguments and the call stack are: no node is created.
\<close>

theorem annotate_nil:
  "Wrap printer None message cs = None \<and>
   Wrapf printer sprintf None format args cs = None \<and>
   WithMessage printer None message = None \<and>
   WithMessagef printer sprintf None format args = None \<and>
   EnsureStack None cs = None \<and>
   WithStack None cs = None"
  by (simp add: Wrap_def Wrapf_def WithMessage_def WithMessagef_def EnsureStack_def
        WithStack_def ensureStack_def)

text \<open>
  C9.  \<open>Cause\<close> of the nil error is nil: \<open>As\<close> finds nothing in it, \<open>Unwrap\<close> of it
  is nil, and the loop returns its argument.
\<close>

theorem Cause_nil: "Cause None = None"
  by (simp add: Cause.simps [of None])

section \<open>The cause is a fixed point\<close>

text \<open>
  C10.  \<open>Cause\<close> is idempotent: what it returns is a node that exposes a
  \<open>StackTrace\<close>, or an error with no further unwrap step (nil included), and
  \<open>Cause\<close> returns each of these unchanged.
\<close>

theorem Cause_idempotent: "Cause (Cause err) = Cause err"
proof (induction err rule: Cause.induct)
  case (1 err)
  show ?case
  proof (cases "As err stackTracer")
    case (Some st)
    then have "stackTracer st" by (rule As_target)
    then have "Cause (Some st) = Some st" by (rule Cause_stackTracer)
    with Some show ?thesis by (simp add: Cause.simps [of err])
  next
    case None
    show ?thesis
    proof (cases "Unwrap err")
      case noUnwrap: None
      with None have "Cause err = err" by (simp add: Cause.simps [of err])
      then show ?thesis by simp
    next
      case (Some e)
      with None have "Cause err = Cause (Some e)" by (simp add: Cause.simps [of err])
      with "1.IH" [OF None Some] show ?thesis by simp
    qed
  qed
qed

section \<open>What the chain walk returns\<close>

text \<open>
  C5.  For a present error, \<open>Cause\<close> returns the first node of the unwrap chain,
  walking from the outermost node inwards, that exposes a \<open>StackTrace\<close>; when no
  node exposes one it returns the last node of the chain, which has no unwrap step
  (the leaf).  In particular an error built from a leaf by \<open>WithMessage\<close> alone, any
  number of times, has that leaf as its cause.
\<close>

theorem Cause_first_stackTracer_or_leaf:
  "Cause (Some err) =
     (case find stackTracer (chain err) of
        Some st \<Rightarrow> Some st
      | None \<Rightarrow> Some (last (chain err))) \<and>
   Unwrap (Some (last (chain err))) = None \<and>
   (Unwrap (Some leaf) = None \<longrightarrow>
      Cause (foldl (WithMessage printer) (Some leaf) messages) = Some leaf)"
proof (intro conjI impI)
  show "Cause (Some err) =
     (case find stackTracer (chain err) of
        Some st \<Rightarrow> Some st
      | None \<Rightarrow> Some (last (chain err)))"
    by (rule Cause_chain)
  show "Unwrap (Some (last (chain err))) = None"
    by (rule last_chain_leaf)
next
  assume leaf: "Unwrap (Some leaf) = None"
  obtain x where "foldl (WithMessage printer) (Some leaf) messages = Some x"
    and "Cause (Some x) = Cause (Some leaf)"
    using Cause_WithMessages [of printer leaf messages] by blast
  with leaf show "Cause (foldl (WithMessage printer) (Some leaf) messages) = Some leaf"
    by (simp add: Cause_leaf)
qed

theorem Cause_first_stackTracer_or_leaf_witness:
  "Cause (Some (wrapError ''b: a'' (formatted (withStack (errorString ''a'') [Site 1])))) =
     Some (withStack (errorString ''a'') [Site 1]) \<and>
   Cause (Some (wrapError ''b: a'' (errorString ''a''))) = Some (errorString ''a'') \<and>
   Unwrap (Some (errorString ''a'')) = None \<and>
   Cause (foldl (WithMessage \<lparr>stackFormat = \<lambda>st verb flag. [], isPrintTable = \<lambda>r. False\<rparr>) (Some (errorString ''a'')) [''b'', ''c''])
     = Some (errorString ''a'')"
  using Cause_first_stackTracer_or_leaf
      [of "wrapError ''b: a'' (formatted (withStack (errorString ''a'') [Site 1]))"
          "errorString ''a''" "\<lparr>stackFormat = \<lambda>st verb flag. [], isPrintTable = \<lambda>r. False\<rparr>" "[''b'', ''c'']"]
    Cause_first_stackTracer_or_leaf
      [of "wrapError ''b: a'' (errorString ''a'')"
          "errorString ''a''" "\<lparr>stackFormat = \<lambda>st verb flag. [], isPrintTable = \<lambda>r. False\<rparr>" "[''b'', ''c'']"]
  by (simp add: chain_simps stackTracer_def)

section \<open>One capture per chain\<close>

text \<open>
  C6.  When the chain of a present error \<open>err\<close> has a node that exposes a
  \<open>StackTrace\<close>, \<open>EnsureStack\<close> returns \<open>formatted{err}\<close>: its unwrap step gives
  \<open>err\<close> itself, it has a \<open>Format\<close> method, its message is \<open>err\<close>'s, and the
  stack traces of the chain are those of \<open>err\<close>, so nothing was captured (the call
  stack \<open>cs\<close> of the call does not occur in the result).
\<close>

theorem EnsureStack_pass_through:
  assumes "list_ex stackTracer (chain err)"
  shows "EnsureStack (Some err) cs = Some (formatted err) \<and>
     Unwrap (EnsureStack (Some err) cs) = Some err \<and>
     hasFormat (formatted err) \<and>
     Error (formatted err) = Error err \<and>
     carried (EnsureStack (Some err) cs) = carried (Some err) \<and>
     stackTraces (EnsureStack (Some err) cs) = stackTraces (Some err)"
  using EnsureStack_found [OF assms, of cs]
  by (simp add: carried_formatted stackTraces_formatted)

theorem EnsureStack_pass_through_witness:
  "EnsureStack (Some (wrapError ''b: a'' (formatted (withStack (errorString ''a'') [Site 1]))))
       [Site 2, Site 3] =
     Some (formatted (wrapError ''b: a'' (formatted (withStack (errorString ''a'') [Site 1])))) \<and>
   carried (EnsureStack
       (Some (wrapError ''b: a'' (formatted (withStack (errorString ''a'') [Site 1]))))
       [Site 2, Site 3]) = Some [Site 1] \<and>
   stackTraces (EnsureStack
       (Some (wrapError ''b: a'' (formatted (withStack (errorString ''a'') [Site 1]))))
       [Site 2, Site 3]) = [[Site 1]]"
proof -
  have h: "list_ex stackTracer
      (chain (wrapError ''b: a'' (formatted (withStack (errorString ''a'') [Site 1]))))"
    by (simp add: chain_simps stackTracer_def)
  show ?thesis
    using EnsureStack_pass_through [OF h, of "[Site 2, Site 3]"]
    by (simp add: carried_wrapError carried_formatted carried_withStack stackTraces_wrapError
          stackTraces_formatted stackTraces_withStack stackTraces_def chain_simps)
qed

text \<open>
  C2.  The stack trace carried by \<open>EnsureStack(EnsureStack(err))\<close> is the one carried
  by \<open>EnsureStack(err)\<close>, whatever the call stacks of the two calls are, and the chain
  exposes the same stack traces, so the second call captured none.  Once a chain
  has a node with a \<open>StackTrace\<close>, \<open>EnsureStack\<close> and \<open>Wrap\<close> leave the carried trace
  and the traces of the chain as they were.
\<close>

theorem EnsureStack_twice:
  "carried (EnsureStack (EnsureStack err cs1) cs2) = carried (EnsureStack err cs1) \<and>
   stackTraces (EnsureStack (EnsureStack err cs1) cs2) = stackTraces (EnsureStack err cs1) \<and>
   (list_ex stackTracer (chain e) \<longrightarrow>
      carried (EnsureStack (Some e) cs) = carried (Some e) \<and>
      stackTraces (EnsureStack (Some e) cs) = stackTraces (Some e) \<and>
      carried (Wrap printer (Some e) message cs) = carried (Some e) \<and>
      stackTraces (Wrap printer (Some e) message cs) = stackTraces (Some e))"
proof (intro conjI impI)
  have twice: "\<exists>x. EnsureStack err cs1 = Some x \<and> EnsureStack (Some x) cs2 = Some (formatted x)"
    if "err = Some a" for a
  proof (cases "list_ex stackTracer (chain a)")
    case True
    then have "list_ex stackTracer (chain (formatted a))" by (simp add: chain_simps)
    with True that show ?thesis by (simp add: EnsureStack_found)
  next
    case False
    have "list_ex stackTracer (chain (formatted (withStack a cs1)))"
      by (simp add: chain_simps stackTracer_def)
    with False that show ?thesis by (simp add: EnsureStack_found EnsureStack_capture)
  qed
  show "carried (EnsureStack (EnsureStack err cs1) cs2) = carried (EnsureStack err cs1)"
  proof (cases err)
    case None
    then show ?thesis by (simp add: EnsureStack_def ensureStack_def)
  next
    case (Some a)
    from twice [OF Some] show ?thesis by (auto simp add: carried_formatted)
  qed
  show "stackTraces (EnsureStack (EnsureStack err cs1) cs2) = stackTraces (EnsureStack err cs1)"
  proof (cases err)
    case None
    then show ?thesis by (simp add: EnsureStack_def ensureStack_def)
  next
    case (Some a)
    from twice [OF Some] show ?thesis by (auto simp add: stackTraces_formatted)
  qed
next
  assume found: "list_ex stackTracer (chain e)"
  show "carried (EnsureStack (Some e) cs) = carried (Some e)"
    by (simp add: EnsureStack_found [OF found] carried_formatted)
  show "stackTraces (EnsureStack (Some e) cs) = stackTraces (Some e)"
    by (simp add: EnsureStack_found [OF found] stackTraces_formatted)
  show "carried (Wrap printer (Some e) message cs) = carried (Some e)"
    by (simp add: Wrap_found [OF found] carried_formatted carried_wrapError)
  show "stackTraces (Wrap printer (Some e) message cs) = stackTraces (Some e)"
    by (simp add: Wrap_found [OF found] stackTraces_formatted stackTraces_wrapError)
qed

theorem EnsureStack_twice_witness:
  "carried (EnsureStack (EnsureStack (Some (errorString ''a'')) [Site 1]) [Site 2]) = Some [Site 1] \<and>
   stackTraces (EnsureStack (EnsureStack (Some (errorString ''a'')) [Site 1]) [Site 2]) = [[Site 1]] \<and>
   carried (Wrap \<lparr>stackFormat = \<lambda>st verb flag. [], isPrintTable = \<lambda>r. False\<rparr> (Some (withStack (errorString ''a'') [Site 1])) ''m'' [Site 2])
     = Some [Site 1] \<and>
   stackTraces (Wrap \<lparr>stackFormat = \<lambda>st verb flag. [], isPrintTable = \<lambda>r. False\<rparr> (Some (withStack (errorString ''a'') [Site 1])) ''m'' [Site 2])
     = [[Site 1]]"
proof -
  have h: "list_ex stackTracer (chain (withStack (errorString ''a'') [Site 1]))"
    by (simp add: chain_simps stackTracer_def)
  have c: "\<not> list_ex stackTracer (chain (errorString ''a''))"
    by (simp add: chain_simps stackTracer_def)
  show ?thesis
    using EnsureStack_twice [of "Some (errorString ''a'')" "[Site 1]" "[Site 2]"
        "withStack (errorString ''a'') [Site 1]" "[Site 2]" "\<lparr>stackFormat = \<lambda>st verb flag. [], isPrintTable = \<lambda>r. False\<rparr>" "''m''"] h
    by (simp add: EnsureStack_capture [OF c] carried_formatted carried_withStack
          stackTraces_formatted stackTraces_withStack stackTraces_none [OF c])
qed

section \<open>Messages\<close>

text \<open>
  C3.  \<open>Wrap\<close> gives the text \<open>message: <text of err>\<close>, and for every present error
  \<open>e\<close> the short-format text of \<open>Wrap(Wrap(e, m1), m2)\<close>, under \<open>%s\<close> and under \<open>%v\<close>
  without the \<open>+\<close> flag, and its \<open>Error()\<close>, are \<open>m2: m1: <text of e>\<close>.
\<close>

theorem Wrap_twice_text:
  "map_option Error (Wrap printer (Some e) m1 cs1) = Some (m1 @ '': '' @ Error e) \<and>
   map_option (Sprint printer VerbS plusFlag)
       (Wrap printer (Wrap printer (Some e) m1 cs1) m2 cs2) =
     Some (m2 @ '': '' @ m1 @ '': '' @ Error e) \<and>
   map_option (Sprint printer VerbV False)
       (Wrap printer (Wrap printer (Some e) m1 cs1) m2 cs2) =
     Some (m2 @ '': '' @ m1 @ '': '' @ Error e) \<and>
   map_option Error (Wrap printer (Wrap printer (Some e) m1 cs1) m2 cs2) =
     Some (m2 @ '': '' @ m1 @ '': '' @ Error e)"
proof -
  obtain w1 where w1: "Wrap printer (Some e) m1 cs1 =
      Some (formatted (wrapError (m1 @ '': '' @ Error e) w1))"
    using Wrap_Some [of printer e m1 cs1] by blast
  obtain w2 where w2: "Wrap printer (Some (formatted (wrapError (m1 @ '': '' @ Error e) w1))) m2 cs2 =
      Some (formatted (wrapError
        (m2 @ '': '' @ Error (formatted (wrapError (m1 @ '': '' @ Error e) w1))) w2))"
    using Wrap_Some [of printer "formatted (wrapError (m1 @ '': '' @ Error e) w1)" m2 cs2]
    by blast
  from w1 w2 show ?thesis
    by (simp add: Sprint_formatted Sprint_formatted_v)
qed

section \<open>A new error\<close>

text \<open>
  C7.  \<open>Cause(New(message))\<close> is a node whose message is \<open>message\<close> and whose stack
  trace is the call stack of the call of \<open>New\<close>, call site first.  A call of \<open>New\<close>
  has a call site, which is the hypothesis \<open>cs \<noteq> []\<close>; the trace is then not empty.
\<close>

theorem Cause_New:
  assumes "cs \<noteq> []"
  shows "\<exists>node st. Cause (New message cs) = Some node \<and> Error node = message \<and>
     StackTrace node = Some st \<and> st \<noteq> [] \<and> st = cs"
  using assms
  by (simp add: New_def Cause_formatted Cause_stackTracer stackTracer_def callers_def)

theorem Cause_New_witness:
  "Cause (New ''disk full'' [Site 7, Site 8]) =
     Some (withStack (errorString ''disk full'') [Site 7, Site 8]) \<and>
   Error (withStack (errorString ''disk full'') [Site 7, Site 8]) = ''disk full'' \<and>
   StackTrace (withStack (errorString ''disk full'') [Site 7, Site 8]) = Some [Site 7, Site 8]"
proof -
  have h: "[Site 7, Site 8] \<noteq> []" by simp
  from Cause_New [OF h, of "''disk full''"]
  obtain node st where "Cause (New ''disk full'' [Site 7, Site 8]) = Some node" 
    and "StackTrace node = Some st" by blast
  moreover have "Cause (New ''disk full'' [Site 7, Site 8]) = Some (withStack (errorString ''disk full'') [Site 7, Site 8])"
    by (simp add: New_def Cause_formatted Cause_stackTracer stackTracer_def callers_def)
  ultimately show ?thesis by auto
qed

section \<open>The quoted verb\<close>




section \<open>The cause under annotations\<close>

text \<open>
  C1, as amended.  Let annotations be applied on top of a present error \<open>e\<close>.
  \<^item> When the chain of \<open>e\<close> exposes a \<open>StackTrace\<close>, or when every annotation is
    \<open>WithMessage\<close> or \<open>WithMessagef\<close>, the cause of the result is the cause of \<open>e\<close>.
  \<^item> So it is \<open>e\<close> itself when \<open>e\<close> exposes a \<open>StackTrace\<close>, and when \<open>e\<close> is a leaf
    under message-only annotations.
  \<^item> Otherwise the cause is the \<open>withStack\<close> node that the first \<open>Wrap\<close>, \<open>Wrapf\<close> or
    \<open>EnsureStack\<close> made: its message and its unwrap step are the error \<open>x\<close> that this
    operation received, which is \<open>e\<close> under the message-only annotations before it.
\<close>

theorem Cause_annotateAll:
  "(list_ex stackTracer (chain e) \<or> \<not> list_ex forcesStack anns \<longrightarrow>
      Cause (annotateAll printer sprintf (Some e) anns) = Cause (Some e)) \<and>
   (stackTracer e \<longrightarrow> Cause (annotateAll printer sprintf (Some e) anns) = Some e) \<and>
   (Unwrap (Some e) = None \<and> \<not> list_ex forcesStack anns \<longrightarrow>
      Cause (annotateAll printer sprintf (Some e) anns) = Some e) \<and>
   (\<not> list_ex stackTracer (chain e) \<and> \<not> list_ex forcesStack pre \<and> forcesStack (ann, cs) \<longrightarrow>
      (\<exists>x. annotateAll printer sprintf (Some e) pre = Some x \<and>
         Cause (annotateAll printer sprintf (Some e) (pre @ (ann, cs) # post)) =
           Some (withStack x cs) \<and>
         Error (withStack x cs) = Error x \<and>
         Unwrap (Some (withStack x cs)) = Some x))"
proof (intro conjI impI)
  assume "list_ex stackTracer (chain e) \<or> \<not> list_ex forcesStack anns"
  then show "Cause (annotateAll printer sprintf (Some e) anns) = Cause (Some e)"
  proof
    assume "list_ex stackTracer (chain e)"
    from annotateAll_found [OF this, of printer sprintf anns] show ?thesis by auto
  next
    assume "\<not> list_ex forcesStack anns"
    from annotateAll_message_only [OF this, of printer sprintf e] show ?thesis by auto
  qed
next
  assume st: "stackTracer e"
  from annotateAll_found [OF stackTracer_chain [OF st], of printer sprintf anns]
  show "Cause (annotateAll printer sprintf (Some e) anns) = Some e"
    by (auto simp add: Cause_stackTracer [OF st])
next
  assume "Unwrap (Some e) = None \<and> \<not> list_ex forcesStack anns"
  then have leaf: "Unwrap (Some e) = None" and only: "\<not> list_ex forcesStack anns" by simp_all
  from annotateAll_message_only [OF only, of printer sprintf e]
  show "Cause (annotateAll printer sprintf (Some e) anns) = Some e"
    by (auto simp add: Cause_leaf [OF leaf])
next
  assume "\<not> list_ex stackTracer (chain e) \<and> \<not> list_ex forcesStack pre \<and> forcesStack (ann, cs)"
  then have none: "\<not> list_ex stackTracer (chain e)" and only: "\<not> list_ex forcesStack pre"
    and forces: "forcesStack (ann, cs)" by simp_all
  from annotateAll_message_only [OF only, of printer sprintf e] none
  obtain x where x: "annotateAll printer sprintf (Some e) pre = Some x"
    "\<not> list_ex stackTracer (chain x)" by auto
  from annotate_capture [OF x(2) forces, of printer sprintf]
  obtain y where y: "annotate printer sprintf (Some x) (ann, cs) = Some y"
    "list_ex stackTracer (chain y)" "Cause (Some y) = Some (withStack x cs)" by blast
  from annotateAll_found [OF y(2), of printer sprintf post]
  have "Cause (annotateAll printer sprintf (Some y) post) = Some (withStack x cs)"
    using y(3) by auto
  with x(1) y(1)
  have "Cause (annotateAll printer sprintf (Some e) (pre @ (ann, cs) # post)) =
      Some (withStack x cs)"
    by (simp add: annotateAll_append annotateAll_Cons)
  with x(1) show "\<exists>x. annotateAll printer sprintf (Some e) pre = Some x \<and>
         Cause (annotateAll printer sprintf (Some e) (pre @ (ann, cs) # post)) =
           Some (withStack x cs) \<and>
         Error (withStack x cs) = Error x \<and>
         Unwrap (Some (withStack x cs)) = Some x"
    by simp
qed

theorem Cause_annotateAll_witness:
  "Cause (annotateAll \<lparr>stackFormat = \<lambda>st verb flag. [], isPrintTable = \<lambda>r. False\<rparr> (\<lambda>format (args :: nat list). format)
       (Some (withStack (errorString ''a'') [Site 0]))
       [(AnnWrap ''m'', [Site 1]), (AnnEnsureStack, [Site 2])]) =
     Some (withStack (errorString ''a'') [Site 0]) \<and>
   Cause (annotateAll \<lparr>stackFormat = \<lambda>st verb flag. [], isPrintTable = \<lambda>r. False\<rparr> (\<lambda>format (args :: nat list). format)
       (Some (errorString ''a''))
       [(AnnWithMessage ''b'', [Site 1]), (AnnWithMessagef ''c'' [], [Site 2])]) =
     Some (errorString ''a'') \<and>
   Cause (annotateAll \<lparr>stackFormat = \<lambda>st verb flag. [], isPrintTable = \<lambda>r. False\<rparr> (\<lambda>format (args :: nat list). format)
       (Some (errorString ''a''))
       ([(AnnWithMessage ''b'', [Site 1])] @ (AnnWrap ''c'', [Site 2]) # [(AnnEnsureStack, [Site 3])])) =
     Some (withStack (wrapError ''b: a'' (errorString ''a'')) [Site 2])"
proof -
  let ?sf = "\<lparr>stackFormat = \<lambda>st verb flag. [], isPrintTable = \<lambda>r. False\<rparr>"
  let ?sp = "\<lambda>(format :: string) (args :: nat list). format"
  have pre: "annotateAll ?sf ?sp (Some (errorString ''a'')) [(AnnWithMessage ''b'', [Site 1])] =
      Some (wrapError ''b: a'' (errorString ''a''))"
    by (simp add: annotateAll_def WithMessage_Some Sprint_def)
  have none: "\<not> list_ex stackTracer (chain (errorString ''a''))"
    by (simp add: chain_simps stackTracer_def)
  have a: "Cause (annotateAll ?sf ?sp (Some (withStack (errorString ''a'') [Site 0]))
       [(AnnWrap ''m'', [Site 1]), (AnnEnsureStack, [Site 2])]) =
     Some (withStack (errorString ''a'') [Site 0])"
    using Cause_annotateAll [of "withStack (errorString ''a'') [Site 0]"
        "[(AnnWrap ''m'', [Site 1]), (AnnEnsureStack, [Site 2])]" ?sf ?sp
        "[]" AnnEnsureStack "[]" "[]"]
    by (simp add: stackTracer_def)
  note second = Cause_annotateAll [of "errorString ''a''"
        "[(AnnWithMessage ''b'', [Site 1]), (AnnWithMessagef ''c'' [], [Site 2])]" ?sf ?sp
        "[(AnnWithMessage ''b'', [Site 1])]" "AnnWrap ''c''" "[Site 2]"
        "[(AnnEnsureStack, [Site 3])]"]
  have b: "Cause (annotateAll ?sf ?sp (Some (errorString ''a''))
       [(AnnWithMessage ''b'', [Site 1]), (AnnWithMessagef ''c'' [], [Site 2])]) =
     Some (errorString ''a'')"
    using second by (simp add: Cause_leaf)
  have "\<exists>x. annotateAll ?sf ?sp (Some (errorString ''a'')) [(AnnWithMessage ''b'', [Site 1])] =
        Some x \<and>
      Cause (annotateAll ?sf ?sp (Some (errorString ''a''))
        ([(AnnWithMessage ''b'', [Site 1])] @ (AnnWrap ''c'', [Site 2]) # [(AnnEnsureStack, [Site 3])])) =
        Some (withStack x [Site 2])"
    using second none by (simp add: Cause_leaf)
  with pre have c: "Cause (annotateAll ?sf ?sp (Some (errorString ''a''))
        ([(AnnWithMessage ''b'', [Site 1])] @ (AnnWrap ''c'', [Site 2]) # [(AnnEnsureStack, [Site 3])])) =
      Some (withStack (wrapError ''b: a'' (errorString ''a'')) [Site 2])"
    by auto
  from a b c show ?thesis by blast
qed

text \<open>
  The claim as it was stated fails.  \<open>EnsureStack\<close> on the leaf \<open>errors.New("a")\<close>
  gives a chain whose cause is the new \<open>withStack\<close> node, a value other than the
  leaf; and \<open>WithMessage\<close> then \<open>Wrap\<close> on that leaf gives a cause whose message is
  \<open>b: a\<close>, not \<open>a\<close>.
\<close>

theorem Cause_annotateAll_counterexample:
  "Cause (annotateAll \<lparr>stackFormat = \<lambda>st verb flag. [], isPrintTable = \<lambda>r. False\<rparr> (\<lambda>format (args :: nat list). format)
       (Some (errorString ''a'')) [(AnnEnsureStack, [Site 1])]) =
     Some (withStack (errorString ''a'') [Site 1]) \<and>
   withStack (errorString ''a'') [Site 1] \<noteq> errorString ''a'' \<and>
   map_option Error (Cause (annotateAll \<lparr>stackFormat = \<lambda>st verb flag. [], isPrintTable = \<lambda>r. False\<rparr> (\<lambda>format (args :: nat list). format)
       (Some (errorString ''a'')) [(AnnWithMessage ''b'', [Site 1]), (AnnWrap ''c'', [Site 2])])) =
     Some ''b: a'' \<and>
   ''b: a'' \<noteq> Error (errorString ''a'')"
  by (simp add: annotateAll_def EnsureStack_capture Wrap_capture WithMessage_Some chain_simps
        stackTracer_def Cause_formatted Cause_wrapError Cause_stackTracer Sprint_def)

end
